theory Spec2Isabelle
  imports Complex_Main "HOL-Library.Multiset"
begin

section \<open>JavaScript numbers\<close>

text \<open>
  The engine computes with JavaScript numbers. They are modelled as the real numbers
  extended by the two infinities and by NaN, with the IEEE rules for the special values:
  \<open>0/0\<close> is NaN, \<open>x/0\<close> is an infinity for \<open>x \<noteq> 0\<close>, NaN is absorbing, and every
  comparison with NaN is false. Rounding to 53 bits and the sign of zero are not
  modelled: \<open>Num x\<close> is the exact real \<open>x\<close>, and zero counts as positive zero.
\<close>

datatype jsnum = Num real | PInf | NInf | NaN

fun is_neg :: "jsnum \<Rightarrow> bool" where
  "is_neg (Num x) = (x < 0)"
| "is_neg NInf = True"
| "is_neg _ = False"

fun num_neg :: "jsnum \<Rightarrow> jsnum" where
  "num_neg (Num x) = Num (- x)"
| "num_neg PInf = NInf"
| "num_neg NInf = PInf"
| "num_neg NaN = NaN"

text \<open>\<open>a + b\<close>\<close>

fun num_add :: "jsnum \<Rightarrow> jsnum \<Rightarrow> jsnum" where
  "num_add (Num x) (Num y) = Num (x + y)"
| "num_add a b =
     (if a = NaN \<or> b = NaN then NaN
      else if (a = PInf \<and> b = NInf) \<or> (a = NInf \<and> b = PInf) then NaN
      else if a = PInf \<or> b = PInf then PInf
      else NInf)"

text \<open>\<open>a - b\<close>\<close>

definition num_sub :: "jsnum \<Rightarrow> jsnum \<Rightarrow> jsnum" where
  "num_sub a b = num_add a (num_neg b)"

text \<open>\<open>a * b\<close>\<close>

fun num_mul :: "jsnum \<Rightarrow> jsnum \<Rightarrow> jsnum" where
  "num_mul (Num x) (Num y) = Num (x * y)"
| "num_mul a b =
     (if a = NaN \<or> b = NaN \<or> a = Num 0 \<or> b = Num 0 then NaN
      else if is_neg a = is_neg b then PInf
      else NInf)"

text \<open>\<open>a / b\<close>\<close>

fun num_div :: "jsnum \<Rightarrow> jsnum \<Rightarrow> jsnum" where
  "num_div (Num x) (Num y) =
     (if y \<noteq> 0 then Num (x / y)
      else if x = 0 then NaN
      else if 0 < x then PInf
      else NInf)"
| "num_div (Num x) PInf = Num 0"
| "num_div (Num x) NInf = Num 0"
| "num_div a b =
     (if a = NaN \<or> b = NaN \<or> b = PInf \<or> b = NInf then NaN
      else if is_neg a = is_neg b then PInf
      else NInf)"

text \<open>\<open>a < b\<close> and \<open>a > b\<close>: false as soon as one side is NaN.\<close>

fun num_lt :: "jsnum \<Rightarrow> jsnum \<Rightarrow> bool" where
  "num_lt (Num x) (Num y) = (x < y)"
| "num_lt NaN _ = False"
| "num_lt _ NaN = False"
| "num_lt NInf b = (b \<noteq> NInf)"
| "num_lt a PInf = (a \<noteq> PInf)"
| "num_lt _ _ = False"

definition num_gt :: "jsnum \<Rightarrow> jsnum \<Rightarrow> bool" where
  "num_gt a b = num_lt b a"

text \<open>\<open>Math.log\<close>, \<open>Math.exp\<close>, \<open>Math.sqrt\<close>\<close>

fun math_log :: "jsnum \<Rightarrow> jsnum" where
  "math_log (Num x) = (if x < 0 then NaN else if x = 0 then NInf else Num (ln x))"
| "math_log PInf = PInf"
| "math_log _ = NaN"

fun math_exp :: "jsnum \<Rightarrow> jsnum" where
  "math_exp (Num x) = Num (exp x)"
| "math_exp PInf = PInf"
| "math_exp NInf = Num 0"
| "math_exp NaN = NaN"

fun math_sqrt :: "jsnum \<Rightarrow> jsnum" where
  "math_sqrt (Num x) = (if x < 0 then NaN else Num (sqrt x))"
| "math_sqrt PInf = PInf"
| "math_sqrt _ = NaN"

text \<open>\<open>Math.pow(a, n)\<close> for an exponent that is a natural number.\<close>

fun math_pow :: "jsnum \<Rightarrow> nat \<Rightarrow> jsnum" where
  "math_pow (Num x) n = Num (x ^ n)"
| "math_pow a n =
     (if n = 0 then Num 1
      else if a = NaN then NaN
      else if a = NInf \<and> odd n then NInf
      else PInf)"

text \<open>\<open>Math.max(a, b)\<close> and \<open>Math.min(a, b)\<close>: NaN as soon as one argument is NaN.\<close>

definition math_max :: "jsnum \<Rightarrow> jsnum \<Rightarrow> jsnum" where
  "math_max a b = (if a = NaN \<or> b = NaN then NaN else if num_lt a b then b else a)"

definition math_min :: "jsnum \<Rightarrow> jsnum \<Rightarrow> jsnum" where
  "math_min a b = (if a = NaN \<or> b = NaN then NaN else if num_lt b a then b else a)"

text \<open>\<open>Math.round\<close>: the nearest integer, a half rounding up.\<close>

fun math_round :: "jsnum \<Rightarrow> jsnum" where
  "math_round (Num x) = Num (of_int \<lfloor>x + 1 / 2\<rfloor>)"
| "math_round a = a"

text \<open>
  A property that may be absent reads as \<open>undefined\<close>; in arithmetic \<open>undefined\<close>
  converts to NaN.
\<close>

fun to_number :: "jsnum option \<Rightarrow> jsnum" where
  "to_number None = NaN"
| "to_number (Some a) = a"

section \<open>Data model\<close>

text \<open>
  A rating carries its score and its date. The score is an integer (1 to 5 in a
  well-formed dataset). The date is kept as the time value, in milliseconds, that
  \<open>new Date(r.date)\<close> yields; dates are taken to be parseable.
\<close>

record rating =
  score :: int
  date :: int

text \<open>
  A business. The three cache fields are absent (\<open>None\<close>) until
  \<open>calculateTrustScore\<close> writes them.
\<close>

record business =
  name :: string
  category :: string
  ratings :: "rating list"
  rawAverage :: "jsnum option"
  entropy :: "jsnum option"
  finalTrust :: "jsnum option"

text \<open>The Bayesian prior weight, the constant \<open>m\<close> of the source.\<close>

definition m_prior :: jsnum where
  "m_prior = Num 15"

text \<open>\<open>xs.reduce((a,b)=>a+b,0)\<close> over a list of scores.\<close>

definition reduce_sum :: "int list \<Rightarrow> jsnum" where
  "reduce_sum xs = foldl (\<lambda>a b. num_add a (Num (of_int b))) (Num 0) xs"

text \<open>The length of an array, as a number.\<close>

definition num_length :: "'a list \<Rightarrow> jsnum" where
  "num_length xs = Num (of_nat (length xs))"

section \<open>Global average\<close>

text \<open>
  \<open>computeGlobalAverage\<close> reads the global \<open>businessesData\<close> and assigns the global
  \<open>globalAverage\<close>; the model takes the dataset and returns the value assigned.
\<close>

definition computeGlobalAverage :: "business list \<Rightarrow> jsnum" where
  "computeGlobalAverage businessesData =
     (let all = concat (map (\<lambda>b. map score (ratings b)) businessesData)
      in num_div (reduce_sum all) (num_length all))"

section \<open>Trust score\<close>

text \<open>
  The histogram \<open>counts\<close> is a JavaScript array: a list of slots, each a number or a
  hole (\<open>None\<close>). \<open>counts[i]++\<close> adds one to slot \<open>i\<close>. When \<open>i\<close> is past the end,
  the array grows up to \<open>i\<close>, the new slots in between are holes, and slot \<open>i\<close>
  becomes \<open>undefined + 1\<close>, which is NaN. When \<open>i\<close> is not an array index (negative, or
  beyond the largest index) the assignment creates a plain property, which \<open>forEach\<close>
  never visits, so the list stays as it is.
\<close>

definition incr_at :: "jsnum option list \<Rightarrow> int \<Rightarrow> jsnum option list" where
  "incr_at counts i =
     (if i < 0 \<or> 4294967295 \<le> i then counts
      else if nat i < length counts
        then counts[nat i := Some (num_add (to_number (counts ! nat i)) (Num 1))]
      else counts @ replicate (nat i - length counts) None @ [Some NaN])"

text \<open>\<open>ratings.forEach(r=>counts[r-1]++)\<close> from \<open>counts=[0,0,0,0,0]\<close>.\<close>

definition trust_counts :: "int list \<Rightarrow> jsnum option list" where
  "trust_counts rs = fold (\<lambda>r counts. incr_at counts (r - 1)) rs (replicate 5 (Some (Num 0)))"

text \<open>
  The body of \<open>counts.forEach(c=>{...})\<close>: one slot \<open>c\<close> updates the accumulator
  \<open>entropy\<close>. \<open>forEach\<close> skips holes.
\<close>

definition entropy_step :: "jsnum \<Rightarrow> jsnum option \<Rightarrow> jsnum \<Rightarrow> jsnum" where
  "entropy_step v slot acc =
     (case slot of
        None \<Rightarrow> acc
      | Some c \<Rightarrow>
          if num_gt c (Num 0)
          then (let p = num_div c v in num_sub acc (num_mul p (math_log p)))
          else acc)"

text \<open>The locals \<open>R\<close>, \<open>bayes\<close>, \<open>normalized\<close> and \<open>score\<close> of \<open>calculateTrustScore\<close>,
  as functions of the score list \<open>ratings\<close> and of the global \<open>globalAverage\<close>.\<close>

definition trust_R :: "int list \<Rightarrow> jsnum" where
  "trust_R rs = num_div (reduce_sum rs) (num_length rs)"

definition trust_bayes :: "jsnum \<Rightarrow> int list \<Rightarrow> jsnum" where
  "trust_bayes globalAverage rs =
     (let v = num_length rs; R = trust_R rs
      in num_add (num_mul (num_div v (num_add v m_prior)) R)
                 (num_mul (num_div m_prior (num_add v m_prior)) globalAverage))"

definition trust_normalized :: "int list \<Rightarrow> jsnum" where
  "trust_normalized rs =
     (let v = num_length rs;
          entropy = fold (entropy_step v) (trust_counts rs) (Num 0)
      in num_div entropy (math_log (Num 5)))"

definition trust_score :: "jsnum \<Rightarrow> int list \<Rightarrow> jsnum" where
  "trust_score globalAverage rs =
     num_add (num_mul (num_div (trust_bayes globalAverage rs) (Num 5)) (Num 80))
             (num_mul (trust_normalized rs) (Num 20))"

text \<open>
  \<open>calculateTrustScore(b)\<close> returns the rounded score and mutates \<open>b\<close>; the model
  returns the result together with the business after the call.
\<close>

definition calculateTrustScore :: "jsnum \<Rightarrow> business \<Rightarrow> jsnum \<times> business" where
  "calculateTrustScore globalAverage b =
     (let rs = map score (ratings b);
          v = length rs
      in if v = 0 then (Num 0, b)
         else (math_round (trust_score globalAverage rs),
               b\<lparr>rawAverage := Some (trust_R rs),
                 entropy := Some (trust_normalized rs),
                 finalTrust := Some (trust_score globalAverage rs)\<rparr>))"

section \<open>Volatility\<close>

definition calculateVolatility :: "business \<Rightarrow> jsnum" where
  "calculateVolatility b =
     (let rs = map score (ratings b);
          avg = num_div (reduce_sum rs) (num_length rs);
          variance =
            num_div
              (foldl (\<lambda>sum r. num_add sum (math_pow (num_sub (Num (of_int r)) avg) 2)) (Num 0) rs)
              (num_length rs)
      in math_sqrt variance)"

section \<open>Feature extraction\<close>

text \<open>
  \<open>Array.prototype.sort\<close> with a comparator is stable, and for a consistent
  comparator the result is fixed by the language: the model is a stable insertion sort
  driven by the comparator. An element moves behind another one only when the comparator
  is positive; zero and NaN leave the pair in its order.
\<close>

fun sort_insert :: "('a \<Rightarrow> 'a \<Rightarrow> jsnum) \<Rightarrow> 'a \<Rightarrow> 'a list \<Rightarrow> 'a list" where
  "sort_insert cmp x [] = [x]"
| "sort_insert cmp x (y # ys) =
     (if num_gt (cmp x y) (Num 0) then y # sort_insert cmp x ys else x # y # ys)"

definition array_sort :: "('a \<Rightarrow> 'a \<Rightarrow> jsnum) \<Rightarrow> 'a list \<Rightarrow> 'a list" where
  "array_sort cmp xs = foldr (sort_insert cmp) xs []"

text \<open>The comparator \<open>(a,b)=>new Date(a.date)-new Date(b.date)\<close>.\<close>

definition date_cmp :: "rating \<Rightarrow> rating \<Rightarrow> jsnum" where
  "date_cmp a b = num_sub (Num (of_int (date a))) (Num (of_int (date b)))"

text \<open>\<open>xs.slice(start)\<close>: a negative \<open>start\<close> counts from the end.\<close>

definition array_slice :: "'a list \<Rightarrow> int \<Rightarrow> 'a list" where
  "array_slice xs start =
     (let len = int (length xs);
          k = (if start < 0 then max (len + start) 0 else min start len)
      in drop (nat k) xs)"

record features =
  fiveStarRatio :: jsnum
  volatility :: jsnum
  f_entropy :: "jsnum option"
  recentFiveRatio :: jsnum

definition extractFeatures :: "business \<Rightarrow> features" where
  "extractFeatures b =
     (let rs = map score (ratings b);
          total = num_length rs;
          fiveStarRatio = num_div (num_length (filter (\<lambda>r. r = 5) rs)) total;
          volatility = calculateVolatility b;
          entropy = entropy b;
          recent = array_slice (array_sort date_cmp (ratings b)) (- 10);
          recentFiveRatio =
            (if 0 < length recent
             then num_div (num_length (filter (\<lambda>r. score r = 5) recent)) (num_length recent)
             else Num 0)
      in \<lparr>fiveStarRatio = fiveStarRatio, volatility = volatility,
          f_entropy = entropy, recentFiveRatio = recentFiveRatio\<rparr>)"

section \<open>Fraud confidence\<close>

definition neuralNetworkPredict :: "jsnum \<Rightarrow> business \<Rightarrow> jsnum \<times> business" where
  "neuralNetworkPredict globalAverage b =
     (let b1 = snd (calculateTrustScore globalAverage b);
          f = extractFeatures b1;
          hidden1 =
            num_add
              (num_add (num_mul (fiveStarRatio f) (Num 0.8))
                       (num_mul (recentFiveRatio f) (Num 1.2)))
              (num_mul (num_sub (Num 1) (to_number (f_entropy f))) (Num 0.6));
          hidden2 =
            num_add (num_mul hidden1 (Num 0.7))
                    (num_mul (num_sub (Num 0.5) (volatility f)) (Num 0.9));
          output = num_div (Num 1) (num_add (Num 1) (math_exp (num_neg hidden2)))
      in (math_min (math_max output (Num 0)) (Num 1), b1))"

section \<open>One card of the rendering pass\<close>

text \<open>
  For each business \<open>renderBusinesses\<close> evaluates \<open>calculateTrustScore(b)\<close> and then
  \<open>neuralNetworkPredict(b)\<close> on the same object; the pair is the full score of the
  business.
\<close>

definition score_card :: "jsnum \<Rightarrow> business \<Rightarrow> (jsnum \<times> jsnum) \<times> business" where
  "score_card globalAverage b =
     (let (trust, b1) = calculateTrustScore globalAverage b;
          (deepAI, b2) = neuralNetworkPredict globalAverage b1
      in ((trust, deepAI), b2))"

section \<open>The arrays behind the recent window\<close>

text \<open>
  \<open>sort\<close> works in place, so whether \<open>extractFeatures\<close> disturbs \<open>b.ratings\<close>
  depends on which array it sorts. Here arrays live in a store, at addresses; every
  address in use is below \<open>fresh\<close>. \<open>[...a]\<close> and \<open>slice\<close> allocate a new array, \<open>sort\<close>
  overwrites the array it is called on and returns the same address.
\<close>

record array_store =
  cells :: "nat \<Rightarrow> rating list"
  fresh :: nat

definition spread_copy :: "array_store \<Rightarrow> nat \<Rightarrow> nat \<times> array_store" where
  "spread_copy st a =
     (fresh st, st\<lparr>cells := (cells st)(fresh st := cells st a), fresh := Suc (fresh st)\<rparr>)"

definition sort_in_place ::
  "(rating \<Rightarrow> rating \<Rightarrow> jsnum) \<Rightarrow> array_store \<Rightarrow> nat \<Rightarrow> nat \<times> array_store" where
  "sort_in_place cmp st a = (a, st\<lparr>cells := (cells st)(a := array_sort cmp (cells st a))\<rparr>)"

definition slice_alloc :: "array_store \<Rightarrow> nat \<Rightarrow> int \<Rightarrow> nat \<times> array_store" where
  "slice_alloc st a start =
     (fresh st,
      st\<lparr>cells := (cells st)(fresh st := array_slice (cells st a) start),
         fresh := Suc (fresh st)\<rparr>)"

text \<open>\<open>[...b.ratings].sort(...).slice(-10)\<close>, with \<open>b.ratings\<close> at address \<open>a\<close>.\<close>

definition recent_in_store :: "array_store \<Rightarrow> nat \<Rightarrow> nat \<times> array_store" where
  "recent_in_store st a =
     (let (c, st1) = spread_copy st a;
          (s, st2) = sort_in_place date_cmp st1 c
      in slice_alloc st2 s (- 10))"

section \<open>The specification's formulas\<close>

text \<open>
  The fraud confidence as the specification writes it: the two hidden layers, the
  sigmoid and the clamp, over a feature vector.
\<close>

definition spec_sigmoid :: "jsnum \<Rightarrow> jsnum" where
  "spec_sigmoid x = num_div (Num 1) (num_add (Num 1) (math_exp (num_neg x)))"

definition spec_clamp :: "jsnum \<Rightarrow> jsnum \<Rightarrow> jsnum \<Rightarrow> jsnum" where
  "spec_clamp x lo hi = (if num_lt x lo then lo else if num_lt hi x then hi else x)"

definition spec_fraud_confidence :: "features \<Rightarrow> jsnum" where
  "spec_fraud_confidence f =
     (let hidden1 =
            num_add
              (num_add (num_mul (fiveStarRatio f) (Num 0.8))
                       (num_mul (recentFiveRatio f) (Num 1.2)))
              (num_mul (num_sub (Num 1) (to_number (f_entropy f))) (Num 0.6));
          hidden2 =
            num_add (num_mul hidden1 (Num 0.7))
                    (num_mul (num_sub (Num 0.5) (volatility f)) (Num 0.9));
          output = spec_sigmoid hidden2
      in spec_clamp output (Num 0) (Num 1))"

text \<open>
  The recent window as the specification words it: the ratings sorted ascending by
  date, equal dates in their original order, and of these the last 10, or all of them
  when there are fewer. \<open>sort_key\<close> is the library's stable sort.
\<close>

definition spec_recent_window :: "rating list \<Rightarrow> rating list" where
  "spec_recent_window rs =
     (let s = sort_key date rs
      in if length s < 10 then s else drop (length s - 10) s)"

text \<open>The five-star ratio of a non-empty window, and the specified \<open>recentFiveRatio\<close>.\<close>

definition spec_five_ratio :: "rating list \<Rightarrow> jsnum" where
  "spec_five_ratio w =
     Num (real (length (filter (\<lambda>r. score r = 5) w)) / real (length w))"

definition spec_recentFiveRatio :: "rating list \<Rightarrow> jsnum" where
  "spec_recentFiveRatio rs =
     (if rs = [] then Num 0 else spec_five_ratio (spec_recent_window rs))"

text \<open>Scores of a well-formed dataset lie between 1 and 5.\<close>

definition valid_scores :: "business \<Rightarrow> bool" where
  "valid_scores b = list_all (\<lambda>r. 1 \<le> score r \<and> score r \<le> 5) (ratings b)"

section \<open>Notions used in the proofs\<close>

text \<open>\<open>p ln p\<close>, with the value 0 at \<open>p = 0\<close>, which is what skipping an empty bucket
  amounts to.\<close>

definition plogp :: "real \<Rightarrow> real" where
  "plogp p = (if 0 < p then p * ln p else 0)"

text \<open>A slot of \<open>counts\<close> that holds the count \<open>n\<close>.\<close>

definition num_slot :: "nat \<Rightarrow> jsnum option" where
  "num_slot n = Some (Num (real n))"

text \<open>A slot that \<open>counts.forEach\<close> passes over without effect: a hole, or a
  slot holding NaN.\<close>

definition dead_slot :: "jsnum option \<Rightarrow> bool" where
  "dead_slot c = (c = None \<or> c = Some NaN)"

text \<open>How often each of the scores 1 to 5 occurs, and the Shannon entropy of that
  histogram as a real number.\<close>

definition score_counts :: "int list \<Rightarrow> nat list" where
  "score_counts rs = map (\<lambda>i. count_list rs (int i + 1)) [0..<5]"

definition entropy_real :: "int list \<Rightarrow> real" where
  "entropy_real rs =
     - sum_list (map (\<lambda>n. plogp (real n / real (length rs))) (score_counts rs))"

text \<open>Sample data: a business with the given scores, rated on consecutive days, and
  a dataset of two such businesses.\<close>

definition sample_business :: "int list \<Rightarrow> business" where
  "sample_business scores =
     \<lparr>name = ''Cafe'', category = ''food'',
      ratings = map (\<lambda>(s, d). \<lparr>score = s, date = d\<rparr>) (zip scores (map int [0..<length scores])),
      rawAverage = None, entropy = None, finalTrust = None\<rparr>"

definition sample_dataset :: "business list" where
  "sample_dataset = [sample_business [5, 3], sample_business [1, 4, 4]]"

text \<open>A store whose only array, at address 0, holds two ratings out of date order.\<close>

definition sample_store :: array_store where
  "sample_store =
     \<lparr>cells = (\<lambda>a. [])(0 := [\<lparr>score = 5, date = 3\<rparr>, \<lparr>score = 4, date = 1\<rparr>]), fresh = 1\<rparr>"

section \<open>Sums and averages\<close>

lemma foldl_add_Num:
  "foldl (\<lambda>a b. num_add a (Num (of_int b))) (Num a) xs = Num (a + of_int (sum_list xs))"
  by (induction xs arbitrary: a) (simp_all add: add.assoc)

lemma reduce_sum_Num: "reduce_sum xs = Num (of_int (sum_list xs))"
  by (simp add: reduce_sum_def foldl_add_Num)

lemma trust_R_Num:
  "rs \<noteq> [] \<Longrightarrow> trust_R rs = Num (of_int (sum_list rs) / real (length rs))"
  by (simp add: trust_R_def reduce_sum_Num num_length_def)

lemma sum_list_bounds:
  fixes rs :: "int list"
  assumes "\<forall>r\<in>set rs. 1 \<le> r \<and> r \<le> 5"
  shows "int (length rs) \<le> sum_list rs \<and> sum_list rs \<le> 5 * int (length rs)"
  using assms by (induction rs) auto

lemma mean_bounds:
  fixes rs :: "int list"
  assumes "\<forall>r\<in>set rs. 1 \<le> r \<and> r \<le> 5" and "rs \<noteq> []"
  shows "1 \<le> real_of_int (sum_list rs) / real (length rs)"
    and "real_of_int (sum_list rs) / real (length rs) \<le> 5"
proof -
  have n: "0 < real (length rs)" using assms(2) by simp
  from sum_list_bounds[OF assms(1)]
  have "real (length rs) \<le> real_of_int (sum_list rs)"
    and "real_of_int (sum_list rs) \<le> 5 * real (length rs)"
    by linarith+
  then show "1 \<le> real_of_int (sum_list rs) / real (length rs)"
    and "real_of_int (sum_list rs) / real (length rs) \<le> 5"
    using n by (simp_all add: field_simps)
qed

lemma trust_bayes_Num:
  assumes "rs \<noteq> []"
  shows "trust_bayes (Num g) rs =
         Num (real (length rs) / (real (length rs) + 15) * (of_int (sum_list rs) / real (length rs))
              + 15 / (real (length rs) + 15) * g)"
proof -
  have "real (length rs) + 15 \<noteq> 0"
    by (metis add_nonneg_pos of_nat_0_le_iff less_numeral_extra(3) zero_less_numeral)
  then show ?thesis
    using assms by (simp add: trust_bayes_def trust_R_Num num_length_def m_prior_def Let_def)
qed

lemma convex_bounds:
  fixes v R g :: real
  assumes "0 \<le> v" "lo \<le> R" "R \<le> hi" "lo \<le> g" "g \<le> hi"
  shows "lo \<le> v / (v + 15) * R + 15 / (v + 15) * g"
    and "v / (v + 15) * R + 15 / (v + 15) * g \<le> hi"
proof -
  have d: "0 < v + 15" using assms(1) by simp
  have eq: "v / (v + 15) * R + 15 / (v + 15) * g = (v * R + 15 * g) / (v + 15)"
    by (simp add: add_divide_distrib)
  have "lo * (v + 15) \<le> v * R + 15 * g"
    using assms mult_left_mono[of lo R v] by (simp add: algebra_simps)
  then show "lo \<le> v / (v + 15) * R + 15 / (v + 15) * g"
    unfolding eq using d by (simp add: pos_le_divide_eq)
  have "v * R + 15 * g \<le> hi * (v + 15)"
    using assms mult_left_mono[of R hi v] by (simp add: algebra_simps)
  then show "v / (v + 15) * R + 15 / (v + 15) * g \<le> hi"
    unfolding eq using d by (simp add: pos_divide_le_eq)
qed

section \<open>The histogram\<close>

text \<open>
  After the first loop the array \<open>counts\<close> holds, in its first five slots, how often each
  of the scores 1 to 5 occurs; a score outside 1..5 leaves behind only holes and NaN
  slots, which the second loop passes over.
\<close>

lemma incr_at_live:
  assumes "1 \<le> r" "r \<le> 5" "length ns = 5"
  shows "incr_at (map num_slot ns @ ds) (r - 1) =
         map num_slot (ns[nat (r - 1) := Suc (ns ! nat (r - 1))]) @ ds"
proof -
  have i: "nat (r - 1) < length ns" "\<not> r - 1 < 0" "\<not> 4294967295 \<le> r - 1"
    using assms by simp_all
  then have j: "nat (r - 1) < length (map num_slot ns @ ds)" by simp
  have "incr_at (map num_slot ns @ ds) (r - 1) =
        (map num_slot ns @ ds)[nat (r - 1) :=
           Some (num_add (to_number ((map num_slot ns @ ds) ! nat (r - 1))) (Num 1))]"
    unfolding incr_at_def using i(2,3) j by simp
  also have "\<dots> = (map num_slot ns)[nat (r - 1) :=
           Some (num_add (to_number (map num_slot ns ! nat (r - 1))) (Num 1))] @ ds"
    using i(1) by (simp add: list_update_append nth_append)
  also have "(map num_slot ns)[nat (r - 1) :=
           Some (num_add (to_number (map num_slot ns ! nat (r - 1))) (Num 1))] =
        map num_slot (ns[nat (r - 1) := Suc (ns ! nat (r - 1))])"
    using i(1) by (simp add: num_slot_def map_update add.commute)
  finally show ?thesis .
qed

lemma incr_at_dead:
  assumes "\<not> (1 \<le> r \<and> r \<le> 5)" "length ns = 5" "list_all dead_slot ds"
  shows "\<exists>ds'. incr_at (map num_slot ns @ ds) (r - 1) = map num_slot ns @ ds'
               \<and> list_all dead_slot ds'"
proof (cases "r - 1 < 0 \<or> 4294967295 \<le> r - 1")
  case True
  then have "incr_at (map num_slot ns @ ds) (r - 1) = map num_slot ns @ ds"
    by (simp add: incr_at_def)
  then show ?thesis using assms(3) by blast
next
  case False
  then have r: "5 \<le> nat (r - 1)" using assms(1) by linarith
  show ?thesis
  proof (cases "nat (r - 1) < length (map num_slot ns @ ds)")
    case True
    define k where "k = nat (r - 1) - 5"
    have k: "k < length ds" "nat (r - 1) - length (map num_slot ns) = k"
      using True r assms(2) by (simp_all add: k_def)
    have old: "(map num_slot ns @ ds) ! nat (r - 1) = ds ! k"
      using r assms(2) k by (simp add: nth_append)
    have "dead_slot (ds ! k)"
      using assms(3) k(1) by (simp add: list_all_length)
    then have nan: "num_add (to_number (ds ! k)) (Num 1) = NaN"
      by (auto simp: dead_slot_def)
    have "incr_at (map num_slot ns @ ds) (r - 1) =
          (map num_slot ns @ ds)[nat (r - 1) := Some NaN]"
      unfolding incr_at_def using False True old nan by simp
    also have "\<dots> = map num_slot ns @ ds[k := Some NaN]"
      using r assms(2) k by (simp add: list_update_append)
    finally have "incr_at (map num_slot ns @ ds) (r - 1) = map num_slot ns @ ds[k := Some NaN]" .
    moreover have "list_all dead_slot (ds[k := Some NaN])"
      using assms(3) by (auto simp: list_all_iff dead_slot_def dest: set_update_subset_insert[THEN subsetD])
    ultimately show ?thesis by blast
  next
    case long: False
    let ?ds' = "ds @ replicate (nat (r - 1) - length (map num_slot ns @ ds)) None @ [Some NaN]"
    have "incr_at (map num_slot ns @ ds) (r - 1) = map num_slot ns @ ?ds'"
      unfolding incr_at_def using False long by simp
    moreover have "list_all dead_slot ?ds'"
      using assms(3) by (auto simp: dead_slot_def list_all_iff)
    ultimately show ?thesis by blast
  qed
qed

lemma count_step:
  assumes "length ns = 5"
  shows "map (\<lambda>i. (if 1 \<le> r \<and> r \<le> 5 then ns[nat (r - 1) := Suc (ns ! nat (r - 1))] else ns) ! i
                  + count_list rs (int i + 1)) [0..<5] =
         map (\<lambda>i. ns ! i + count_list (r # rs) (int i + 1)) [0..<5]"
proof (rule map_cong[OF refl])
  fix i assume "i \<in> set [0..<5]"
  then have i: "i < 5" by simp
  show "(if 1 \<le> r \<and> r \<le> 5 then ns[nat (r - 1) := Suc (ns ! nat (r - 1))] else ns) ! i
          + count_list rs (int i + 1) = ns ! i + count_list (r # rs) (int i + 1)"
    using i assms by (auto simp: nth_list_update)
qed

lemma fold_incr_slots:
  assumes "length ns = 5" "list_all dead_slot ds"
  shows "\<exists>ds'. fold (\<lambda>r counts. incr_at counts (r - 1)) rs (map num_slot ns @ ds) =
           map num_slot (map (\<lambda>i. ns ! i + count_list rs (int i + 1)) [0..<5]) @ ds'
           \<and> list_all dead_slot ds'"
  using assms
proof (induction rs arbitrary: ns ds)
  case Nil
  have "map (\<lambda>i. ns ! i) [0..<5] = ns"
    using Nil(1) by (simp add: list_eq_iff_nth_eq)
  then show ?case using Nil(2) by auto
next
  case (Cons r rs)
  define ns' where "ns' = (if 1 \<le> r \<and> r \<le> 5 then ns[nat (r - 1) := Suc (ns ! nat (r - 1))] else ns)"
  have len: "length ns' = 5" using Cons.prems(1) by (simp add: ns'_def)
  obtain ds1 where ds1: "incr_at (map num_slot ns @ ds) (r - 1) = map num_slot ns' @ ds1"
      "list_all dead_slot ds1"
  proof (cases "1 \<le> r \<and> r \<le> 5")
    case True
    then show ?thesis
      using incr_at_live[of r ns ds] Cons.prems that by (simp add: ns'_def)
  next
    case False
    then show ?thesis
      using incr_at_dead[OF False Cons.prems] that by (auto simp: ns'_def)
  qed
  obtain ds' where ds': "fold (\<lambda>r counts. incr_at counts (r - 1)) rs (map num_slot ns' @ ds1) =
           map num_slot (map (\<lambda>i. ns' ! i + count_list rs (int i + 1)) [0..<5]) @ ds'"
      "list_all dead_slot ds'"
    using Cons.IH[OF len ds1(2)] by blast
  have "fold (\<lambda>r counts. incr_at counts (r - 1)) (r # rs) (map num_slot ns @ ds) =
        map num_slot (map (\<lambda>i. ns' ! i + count_list rs (int i + 1)) [0..<5]) @ ds'"
    using ds1(1) ds'(1) by simp
  also have "map (\<lambda>i. ns' ! i + count_list rs (int i + 1)) [0..<5] =
             map (\<lambda>i. ns ! i + count_list (r # rs) (int i + 1)) [0..<5]"
    unfolding ns'_def by (rule count_step[OF Cons.prems(1)])
  finally show ?case using ds'(2) by blast
qed

lemma trust_counts_slots:
  "\<exists>ds. trust_counts rs = map num_slot (score_counts rs) @ ds \<and> list_all dead_slot ds"
proof -
  have z: "replicate 5 (Some (Num 0)) = map num_slot (replicate 5 0) @ []"
    by (simp add: num_slot_def)
  have "\<exists>ds'. fold (\<lambda>r counts. incr_at counts (r - 1)) rs (map num_slot (replicate 5 0) @ []) =
           map num_slot (map (\<lambda>i. replicate 5 0 ! i + count_list rs (int i + 1)) [0..<5]) @ ds'
           \<and> list_all dead_slot ds'"
    by (rule fold_incr_slots) simp_all
  moreover have "map (\<lambda>i. replicate 5 0 ! i + count_list rs (int i + 1)) [0..<5] = score_counts rs"
    unfolding score_counts_def by (rule map_cong[OF refl]) simp
  ultimately show ?thesis
    unfolding trust_counts_def z by simp
qed

lemma sum_count_list_valid:
  assumes "\<forall>r\<in>set rs. 1 \<le> r \<and> r \<le> 5"
  shows "sum_list (map (\<lambda>i. count_list rs (int i + 1)) [0..<5]) = length rs"
proof -
  have five: "[0..<5] = [0, 1, 2, 3, 4]"
    by (simp add: upt_rec)
  have cases: "r = 1 \<or> r = 2 \<or> r = 3 \<or> r = 4 \<or> r = 5" if "1 \<le> r" "r \<le> 5" for r :: int
    using that by presburger
  show ?thesis
    using assms unfolding five
  proof (induction rs)
    case Nil
    then show ?case by simp
  next
    case (Cons r rs)
    then show ?case using cases[of r] by auto
  qed
qed

section \<open>The entropy loop\<close>

lemma entropy_step_slot:
  assumes "0 < v"
  shows "entropy_step (Num v) (num_slot n) (Num e) = Num (e - plogp (real n / v))"
proof (cases "n = 0")
  case True
  then show ?thesis
    by (simp add: entropy_step_def num_slot_def num_gt_def plogp_def)
next
  case False
  then have p: "0 < real n / v" using assms by simp
  then have "\<not> real n / v < 0" "real n / v \<noteq> 0" by linarith+
  then have "math_log (Num (real n / v)) = Num (ln (real n / v))" by simp
  then show ?thesis
    using assms False p
    by (simp add: entropy_step_def num_slot_def num_gt_def plogp_def num_sub_def Let_def
             del: math_log.simps)
qed

lemma fold_entropy_slots:
  assumes "0 < v"
  shows "fold (entropy_step (Num v)) (map num_slot ns) (Num e) =
         Num (e - sum_list (map (\<lambda>n. plogp (real n / v)) ns))"
  using assms
  by (induction ns arbitrary: e) (simp_all add: entropy_step_slot algebra_simps)

section \<open>Bounds on the entropy\<close>

text \<open>
  The entropy of a histogram over five buckets lies between 0 and \<open>ln 5\<close>; the upper
  bound follows from \<open>ln x \<le> x - 1\<close>.
\<close>

lemma plogp_nonpos: "0 \<le> p \<Longrightarrow> p \<le> 1 \<Longrightarrow> plogp p \<le> 0"
  by (simp add: plogp_def mult_nonneg_nonpos)

lemma plogp_lower:
  assumes "0 \<le> p" "0 < k"
  shows "p - 1 / k - p * ln k \<le> plogp p"
proof (cases "0 < p")
  case False
  then have "p = 0" using assms by simp
  then show ?thesis using assms by (simp add: plogp_def)
next
  case True
  have pos: "0 < 1 / (k * p)" using True assms by simp
  have "ln (1 / (k * p)) \<le> 1 / (k * p) - 1"
    using ln_le_minus_one[OF pos] .
  then have "p * ln (1 / (k * p)) \<le> p * (1 / (k * p) - 1)"
    using True by (simp add: mult_left_mono)
  also have "\<dots> = 1 / k - p"
    using True assms by (simp add: field_simps)
  finally have "p * ln (1 / (k * p)) \<le> 1 / k - p" .
  moreover have "ln (1 / (k * p)) = - ln k - ln p"
    using True assms by (simp add: ln_div ln_mult)
  ultimately have "p * (- ln k - ln p) \<le> 1 / k - p" by simp
  then show ?thesis using True by (simp add: plogp_def algebra_simps)
qed

lemma sum_plogp_lower:
  fixes ps :: "real list"
  assumes "\<forall>p\<in>set ps. 0 \<le> p" "0 < k"
  shows "sum_list ps - real (length ps) / k - sum_list ps * ln k \<le> sum_list (map plogp ps)"
  using assms
proof (induction ps)
  case Nil
  then show ?case by simp
next
  case (Cons p ps)
  have "p - 1 / k - p * ln k \<le> plogp p"
    using plogp_lower[of p k] Cons.prems by simp
  moreover have "sum_list ps - real (length ps) / k - sum_list ps * ln k \<le> sum_list (map plogp ps)"
    using Cons by simp
  ultimately show ?case
    by (simp add: algebra_simps add_divide_distrib)
qed

lemma sum_plogp_nonpos:
  fixes ps :: "real list"
  assumes "\<forall>p\<in>set ps. 0 \<le> p \<and> p \<le> 1"
  shows "sum_list (map plogp ps) \<le> 0"
  using assms
proof (induction ps)
  case Nil
  then show ?case by simp
next
  case (Cons p ps)
  then show ?case using plogp_nonpos[of p] by fastforce
qed

lemma sum_list_div_real:
  "sum_list (map (\<lambda>n. real n / v) ns) = real (sum_list ns) / v"
  by (induction ns) (simp_all add: add_divide_distrib)

lemma entropy_step_dead: "dead_slot c \<Longrightarrow> entropy_step v c acc = acc"
  by (auto simp: dead_slot_def entropy_step_def num_gt_def)

lemma fold_entropy_dead: "list_all dead_slot ds \<Longrightarrow> fold (entropy_step v) ds acc = acc"
  by (induction ds arbitrary: acc) (simp_all add: entropy_step_dead)

lemma trust_normalized_Num:
  assumes "rs \<noteq> []"
  shows "trust_normalized rs = Num (entropy_real rs / ln 5)"
proof -
  have v: "0 < real (length rs)" using assms by simp
  obtain ds where ds: "trust_counts rs = map num_slot (score_counts rs) @ ds" "list_all dead_slot ds"
    using trust_counts_slots by blast
  have "fold (entropy_step (Num (real (length rs)))) (trust_counts rs) (Num 0) =
        fold (entropy_step (Num (real (length rs)))) (map num_slot (score_counts rs)) (Num 0)"
    unfolding ds(1) by (simp add: fold_entropy_dead[OF ds(2)])
  also have "\<dots> = Num (entropy_real rs)"
    unfolding entropy_real_def by (simp only: fold_entropy_slots[OF v]) simp
  finally have "fold (entropy_step (Num (real (length rs)))) (trust_counts rs) (Num 0) =
        Num (entropy_real rs)" .
  moreover have "ln (5::real) \<noteq> 0" by simp
  ultimately show ?thesis
    by (simp add: trust_normalized_def num_length_def Let_def)
qed

lemma entropy_real_bounds:
  assumes "\<forall>r\<in>set rs. 1 \<le> r \<and> r \<le> 5" "rs \<noteq> []"
  shows "0 \<le> entropy_real rs" and "entropy_real rs \<le> ln 5"
proof -
  let ?v = "real (length rs)"
  let ?ps = "map (\<lambda>n. real n / ?v) (score_counts rs)"
  have v: "0 < ?v" using assms(2) by simp
  have total: "sum_list (score_counts rs) = length rs"
    unfolding score_counts_def by (rule sum_count_list_valid[OF assms(1)])
  have le: "n \<le> length rs" if "n \<in> set (score_counts rs)" for n
    using member_le_sum_list[OF that] total by simp
  have range: "\<forall>p\<in>set ?ps. 0 \<le> p \<and> p \<le> 1"
    using v le by (auto simp: divide_le_eq)
  have "sum_list ?ps = real (sum_list (score_counts rs)) / ?v"
    by (rule sum_list_div_real)
  then have one: "sum_list ?ps = 1"
    using total v by simp
  have len: "length ?ps = 5" by (simp add: score_counts_def)
  have e: "entropy_real rs = - sum_list (map plogp ?ps)"
    by (simp add: entropy_real_def comp_def)
  show "0 \<le> entropy_real rs"
    unfolding e using sum_plogp_nonpos[OF range] by simp
  have "sum_list ?ps - real (length ?ps) / 5 - sum_list ?ps * ln 5 \<le> sum_list (map plogp ?ps)"
    by (rule sum_plogp_lower) (use range in auto)
  then show "entropy_real rs \<le> ln 5"
    unfolding e one len by simp
qed

lemma trust_normalized_bounds:
  assumes "\<forall>r\<in>set rs. 1 \<le> r \<and> r \<le> 5" "rs \<noteq> []"
  shows "\<exists>e. trust_normalized rs = Num e \<and> 0 \<le> e \<and> e \<le> 1"
proof -
  have l: "0 < ln (5::real)" by simp
  from entropy_real_bounds[OF assms]
  have "0 \<le> entropy_real rs / ln 5" "entropy_real rs / ln 5 \<le> 1"
    using l by (simp_all add: divide_le_eq)
  then show ?thesis
    using trust_normalized_Num[OF assms(2)] by blast
qed

section \<open>Sorting by date and the recent window\<close>

lemma date_cmp_gt: "num_gt (date_cmp x y) (Num 0) \<longleftrightarrow> date y < date x"
  by (simp add: date_cmp_def num_gt_def num_sub_def)

lemma sort_insert_date: "sort_insert date_cmp x ys = insort_key date x ys"
  by (induction ys) (auto simp: date_cmp_gt)

lemma array_sort_date: "array_sort date_cmp xs = sort_key date xs"
  by (induction xs) (simp_all add: array_sort_def sort_insert_date)

lemma array_slice_last10:
  "array_slice xs (- 10) = drop (length xs - 10) xs"
  by (simp add: array_slice_def Let_def nat_diff_distrib' max_def)

lemma recent_window_eq:
  "array_slice (array_sort date_cmp rs) (- 10) = spec_recent_window rs"
  by (simp add: array_slice_last10 array_sort_date spec_recent_window_def Let_def)

lemma length_recent_window: "length (spec_recent_window rs) = min 10 (length rs)"
  by (simp add: spec_recent_window_def Let_def)

lemma recent_window_nonempty:
  "rs \<noteq> [] \<Longrightarrow> spec_recent_window rs \<noteq> []"
proof
  assume ne: "rs \<noteq> []" and e: "spec_recent_window rs = []"
  from ne have "0 < length rs" by simp
  then have "0 < min 10 (length rs)" by simp
  then show False using length_recent_window[of rs] e by (simp add: min_def split: if_splits)
qed

lemma recent_window_empty: "spec_recent_window [] = []"
  by (simp add: spec_recent_window_def)

section \<open>Volatility and features\<close>

lemma foldl_variance_Num:
  "foldl (\<lambda>sum r. num_add sum (math_pow (num_sub (Num (of_int r)) (Num avg)) 2)) (Num a) rs =
   Num (a + sum_list (map (\<lambda>r. (of_int r - avg)\<^sup>2) rs))"
  by (induction rs arbitrary: a) (simp_all add: num_sub_def add.assoc)

lemma calculateVolatility_Num:
  assumes "ratings b \<noteq> []"
  shows "\<exists>s. calculateVolatility b = Num s"
proof -
  let ?rs = "map score (ratings b)"
  let ?n = "real (length ?rs)"
  let ?avg = "real_of_int (sum_list ?rs) / ?n"
  let ?var = "sum_list (map (\<lambda>r. (of_int r - ?avg)\<^sup>2) ?rs) / ?n"
  have n: "?n \<noteq> 0" using assms by simp
  have nonneg: "0 \<le> sum_list (map (\<lambda>r. (real_of_int r - ?avg)\<^sup>2) ?rs)"
    by (rule sum_list_nonneg) auto
  have "0 \<le> ?var" using nonneg by simp
  then have "\<not> ?var < 0" by linarith
  then have "math_sqrt (Num ?var) = Num (sqrt ?var)" by simp
  moreover have "calculateVolatility b = math_sqrt (Num ?var)"
    using n
    by (simp add: calculateVolatility_def reduce_sum_Num num_length_def Let_def
                  foldl_variance_Num del: math_sqrt.simps)
  ultimately show ?thesis by simp
qed

lemma calculateVolatility_empty:
  "ratings b = [] \<Longrightarrow> calculateVolatility b = NaN"
  by (simp add: calculateVolatility_def reduce_sum_Num num_length_def)

lemma extractFeatures_recent:
  "recentFiveRatio (extractFeatures b) = spec_recentFiveRatio (ratings b)"
proof (cases "ratings b = []")
  case True
  then show ?thesis
    by (simp add: extractFeatures_def Let_def recent_window_eq recent_window_empty
                  spec_recentFiveRatio_def)
next
  case False
  then have "spec_recent_window (ratings b) \<noteq> []" by (rule recent_window_nonempty)
  then show ?thesis
    using False
    by (simp add: extractFeatures_def Let_def recent_window_eq spec_recentFiveRatio_def
                  spec_five_ratio_def num_length_def)
qed

lemma extractFeatures_five:
  "ratings b \<noteq> [] \<Longrightarrow>
   fiveStarRatio (extractFeatures b) =
     Num (real (length (filter (\<lambda>r. r = 5) (map score (ratings b)))) / real (length (ratings b)))"
  by (simp add: extractFeatures_def Let_def num_length_def)

lemma extractFeatures_five_empty:
  "ratings b = [] \<Longrightarrow> fiveStarRatio (extractFeatures b) = NaN"
  by (simp add: extractFeatures_def Let_def num_length_def)

lemma extractFeatures_volatility: "volatility (extractFeatures b) = calculateVolatility b"
  by (simp add: extractFeatures_def Let_def)

lemma extractFeatures_entropy: "f_entropy (extractFeatures b) = entropy b"
  by (simp add: extractFeatures_def Let_def)

section \<open>The two branches of the trust score\<close>

lemma calculateTrustScore_empty:
  "ratings b = [] \<Longrightarrow> calculateTrustScore ga b = (Num 0, b)"
  by (simp add: calculateTrustScore_def)

lemma calculateTrustScore_nonempty:
  "ratings b \<noteq> [] \<Longrightarrow>
   calculateTrustScore ga b =
     (math_round (trust_score ga (map score (ratings b))),
      b\<lparr>rawAverage := Some (trust_R (map score (ratings b))),
        entropy := Some (trust_normalized (map score (ratings b))),
        finalTrust := Some (trust_score ga (map score (ratings b)))\<rparr>)"
  by (simp add: calculateTrustScore_def Let_def)

lemma valid_scores_set:
  "valid_scores b \<Longrightarrow> \<forall>r\<in>set (map score (ratings b)). 1 \<le> r \<and> r \<le> 5"
  by (auto simp: valid_scores_def list_all_iff)

lemma trust_score_bounds:
  assumes "\<forall>r\<in>set rs. 1 \<le> r \<and> r \<le> 5" "rs \<noteq> []" "1 \<le> g" "g \<le> 5"
  shows "\<exists>s. trust_score (Num g) rs = Num s \<and> 0 \<le> s \<and> s \<le> 100"
proof -
  define v where "v = real (length rs)"
  define R where "R = real_of_int (sum_list rs) / v"
  define bayes where "bayes = v / (v + 15) * R + 15 / (v + 15) * g"
  obtain e where e: "trust_normalized rs = Num e" "0 \<le> e" "e \<le> 1"
    using trust_normalized_bounds[OF assms(1,2)] by blast
  have R: "1 \<le> R" "R \<le> 5"
    using mean_bounds[OF assms(1,2)] by (simp_all add: R_def v_def)
  have "0 \<le> v" by (simp add: v_def)
  then have bayes: "1 \<le> bayes" "bayes \<le> 5"
    unfolding bayes_def using convex_bounds[of v 1 R 5 g] R assms(3,4) by blast+
  have "trust_bayes (Num g) rs = Num bayes"
    unfolding bayes_def R_def v_def by (rule trust_bayes_Num[OF assms(2)])
  then have s: "trust_score (Num g) rs = Num (bayes / 5 * 80 + e * 20)"
    by (simp add: trust_score_def e(1))
  have "0 \<le> bayes / 5 * 80 + e * 20" using bayes(1) e(2) by simp
  moreover have "bayes / 5 * 80 + e * 20 \<le> 100" using bayes(2) e(3) by simp
  ultimately show ?thesis using s by blast
qed

lemma math_round_int_bounds:
  assumes "0 \<le> s" "s \<le> 100"
  shows "\<exists>n::int. math_round (Num s) = Num (of_int n) \<and> 0 \<le> n \<and> n \<le> 100"
proof -
  have "0 \<le> \<lfloor>s + 1 / 2\<rfloor>" using assms(1) by simp
  moreover have "\<lfloor>s + 1 / 2\<rfloor> \<le> 100"
  proof -
    have "s + 1 / 2 < 101" using assms(2) by simp
    then have "\<lfloor>s + 1 / 2\<rfloor> < 101" by (simp add: floor_less_iff)
    then show ?thesis by simp
  qed
  ultimately show ?thesis by simp
qed

lemma computeGlobalAverage_bounds:
  assumes "list_all valid_scores ds" "list_ex (\<lambda>b. ratings b \<noteq> []) ds"
  shows "\<exists>g. computeGlobalAverage ds = Num g \<and> 1 \<le> g \<and> g \<le> 5"
proof -
  let ?all = "concat (map (\<lambda>b. map score (ratings b)) ds)"
  have valid: "\<forall>r\<in>set ?all. 1 \<le> r \<and> r \<le> 5"
    using assms(1) valid_scores_set by (fastforce simp: list_all_iff)
  have ne: "?all \<noteq> []"
    using assms(2) by (auto simp: list_ex_iff)
  have "computeGlobalAverage ds = Num (real_of_int (sum_list ?all) / real (length ?all))"
    using ne by (simp add: computeGlobalAverage_def Let_def reduce_sum_Num num_length_def)
  then show ?thesis
    using mean_bounds[OF valid ne] by blast
qed

section \<open>The sigmoid and the prediction\<close>

lemma sigmoid_range: "0 < 1 / (1 + exp (- h))" "1 / (1 + exp (- h)) < (1::real)"
proof -
  have pos: "0 < 1 + exp (- h)" by (simp add: add_pos_pos)
  show "0 < 1 / (1 + exp (- h))" using pos by simp
  show "1 / (1 + exp (- h)) < 1" using pos by (simp add: divide_less_eq)
qed

lemma sigmoid_clamped:
  "math_min (math_max (num_div (Num 1) (num_add (Num 1) (math_exp (num_neg (Num h))))) (Num 0))
            (Num 1) = Num (1 / (1 + exp (- h)))"
proof -
  have pos: "0 < 1 + exp (- h)" by (simp add: add_pos_pos)
  then have nz: "1 + exp (- h) \<noteq> 0" by simp
  show ?thesis
    using nz sigmoid_range[of h] by (simp add: math_min_def math_max_def)
qed

lemma predict_closed_form:
  assumes "ratings b \<noteq> []"
  shows "\<exists>q w e s.
           fiveStarRatio (extractFeatures (snd (calculateTrustScore ga b))) = Num q
         \<and> recentFiveRatio (extractFeatures (snd (calculateTrustScore ga b))) = Num w
         \<and> f_entropy (extractFeatures (snd (calculateTrustScore ga b))) = Some (Num e)
         \<and> volatility (extractFeatures (snd (calculateTrustScore ga b))) = Num s
         \<and> fst (neuralNetworkPredict ga b) =
             Num (1 / (1 + exp (- ((q * 0.8 + w * 1.2 + (1 - e) * 0.6) * 0.7 + (0.5 - s) * 0.9))))"
proof -
  let ?rs = "map score (ratings b)"
  let ?b1 = "snd (calculateTrustScore ga b)"
  have rs: "?rs \<noteq> []" using assms(1) by simp
  obtain e where e: "trust_normalized ?rs = Num e"
    using trust_normalized_Num[OF rs] by blast
  have r1: "ratings ?b1 = ratings b"
    by (simp add: calculateTrustScore_nonempty[OF assms(1)])
  have en: "f_entropy (extractFeatures ?b1) = Some (Num e)"
    by (simp add: extractFeatures_entropy calculateTrustScore_nonempty[OF assms(1)] e)
  obtain s where s: "volatility (extractFeatures ?b1) = Num s"
    using calculateVolatility_Num[of ?b1] r1 assms(1) by (auto simp: extractFeatures_volatility)
  obtain q where q: "fiveStarRatio (extractFeatures ?b1) = Num q"
    using extractFeatures_five[of ?b1] r1 assms(1) by simp
  obtain w where w: "recentFiveRatio (extractFeatures ?b1) = Num w"
    using extractFeatures_recent[of ?b1] r1 assms(1)
    by (simp add: spec_recentFiveRatio_def spec_five_ratio_def)
  let ?h2 = "(q * 0.8 + w * 1.2 + (1 - e) * 0.6) * 0.7 + (0.5 - s) * 0.9"
  have "fst (neuralNetworkPredict ga b) = Num (1 / (1 + exp (- ?h2)))"
    unfolding neuralNetworkPredict_def Let_def fst_conv en s q w
    using sigmoid_clamped[of ?h2] by (simp add: num_sub_def)
  then show ?thesis
    using q w en s by blast
qed

lemma predict_Num:
  assumes "ratings b \<noteq> []"
  shows "\<exists>c. fst (neuralNetworkPredict ga b) = Num c \<and> 0 < c \<and> c < 1"
  using predict_closed_form[OF assms, of ga] sigmoid_range by metis

section \<open>Even and one-sided histograms\<close>

lemma count_list_same:
  "\<forall>r\<in>set rs. r = s \<Longrightarrow> count_list rs k = (if k = s then length rs else 0)"
  by (induction rs) auto

lemma entropy_real_same:
  assumes "\<forall>r\<in>set rs. r = s"
  shows "entropy_real rs = 0"
proof -
  have "plogp (real n / real (length rs)) = 0" if "n \<in> set (score_counts rs)" for n
  proof -
    have "n = 0 \<or> n = length rs"
      using that count_list_same[OF assms] by (auto simp: score_counts_def)
    then show ?thesis by (auto simp: plogp_def)
  qed
  then have "map (\<lambda>n. plogp (real n / real (length rs))) (score_counts rs) =
             map (\<lambda>n. 0) (score_counts rs)"
    by (intro map_cong[OF refl]) simp
  then have "sum_list (map (\<lambda>n. plogp (real n / real (length rs))) (score_counts rs)) =
             sum_list (map (\<lambda>n. 0::real) (score_counts rs))"
    by (rule arg_cong)
  then show ?thesis
    unfolding entropy_real_def by (simp only: sum_list_0)
qed

lemma entropy_real_even:
  assumes valid: "\<forall>r\<in>set rs. 1 \<le> r \<and> r \<le> 5" and ne: "rs \<noteq> []"
    and even: "\<forall>k\<in>{1, 2, 3, 4, 5}. count_list rs k = count_list rs 1"
  shows "entropy_real rs = ln 5"
proof -
  define c where "c = count_list rs 1"
  have five: "[0..<5] = [0, 1, 2, 3, 4]" by (simp add: upt_rec)
  have counts: "score_counts rs = [c, c, c, c, c]"
    using even by (simp add: score_counts_def five c_def)
  have "sum_list (score_counts rs) = length rs"
    unfolding score_counts_def by (rule sum_count_list_valid[OF valid])
  then have len: "length rs = 5 * c" by (simp add: counts)
  then have c: "0 < c" using ne by (cases c) auto
  have p: "real c / real (length rs) = 1 / 5"
    using c by (simp add: len)
  have "plogp (1 / 5) = - (ln 5 / 5)"
    by (simp add: plogp_def ln_div)
  then show ?thesis
    by (simp add: entropy_real_def counts p)
qed

lemma entropy_after_trust:
  "ratings b \<noteq> [] \<Longrightarrow>
   entropy (snd (calculateTrustScore ga b)) =
     Some (Num (entropy_real (map score (ratings b)) / ln 5))"
  by (simp add: calculateTrustScore_nonempty trust_normalized_Num)

lemma round_56: "math_round (Num 56) = Num 56"
proof -
  have "\<lfloor>(56::real) + 1 / 2\<rfloor> = 56" by linarith
  then show ?thesis by simp
qed

section \<open>Empty inputs\<close>

lemma computeGlobalAverage_empty:
  assumes "\<forall>b\<in>set ds. ratings b = []"
  shows "computeGlobalAverage ds = NaN"
proof -
  have e: "concat (map (\<lambda>b. map score (ratings b)) ds) = []"
    using assms by simp
  have "num_div (reduce_sum []) (num_length ([]::int list)) = NaN"
    by (simp add: reduce_sum_Num num_length_def)
  then show ?thesis
    unfolding computeGlobalAverage_def Let_def e .
qed

lemma predict_empty:
  assumes "ratings b = []"
  shows "fst (neuralNetworkPredict ga b) = NaN"
proof -
  have b1: "snd (calculateTrustScore ga b) = b"
    by (simp add: calculateTrustScore_empty[OF assms])
  have five: "fiveStarRatio (extractFeatures b) = NaN"
    by (rule extractFeatures_five_empty[OF assms])
  show ?thesis
    unfolding neuralNetworkPredict_def Let_def fst_conv b1 five
    by (simp add: math_min_def math_max_def)
qed

section \<open>The clamp, the sort and the frame\<close>

lemma min_max_is_clamp:
  "math_min (math_max x (Num 0)) (Num 1) = spec_clamp x (Num 0) (Num 1)"
  by (cases x) (auto simp: math_min_def math_max_def spec_clamp_def)

lemma array_sort_props:
  "mset (array_sort date_cmp rs) = mset rs"
  "sorted (map date (array_sort date_cmp rs))"
  "filter (\<lambda>r. date r = d) (array_sort date_cmp rs) = filter (\<lambda>r. date r = d) rs"
  by (simp_all add: array_sort_date sort_key_stable)

lemma recent_window_sorted_input:
  assumes "sorted (map date rs)"
  shows "spec_recent_window rs = drop (length rs - 10) rs"
  using assms by (simp add: spec_recent_window_def Let_def sort_key_id_if_sorted)

lemma trust_writes_cache_only:
  "\<exists>ra en ft. snd (calculateTrustScore ga b) = b\<lparr>rawAverage := ra, entropy := en, finalTrust := ft\<rparr>"
proof (cases "ratings b = []")
  case True
  have "b = b\<lparr>rawAverage := rawAverage b, entropy := entropy b, finalTrust := finalTrust b\<rparr>"
    by simp
  then show ?thesis
    unfolding calculateTrustScore_empty[OF True] snd_conv by blast
next
  case False
  show ?thesis
    unfolding calculateTrustScore_nonempty[OF False] snd_conv by blast
qed

lemma predict_state: "snd (neuralNetworkPredict ga b) = snd (calculateTrustScore ga b)"
  by (simp add: neuralNetworkPredict_def Let_def)

lemma recent_in_store_frame:
  assumes "a < fresh st"
  shows "cells (snd (recent_in_store st a)) a = cells st a"
    and "\<forall>a'<fresh st. cells (snd (recent_in_store st a)) a' = cells st a'"
    and "fresh st < fst (recent_in_store st a)"
    and "cells (snd (recent_in_store st a)) (fst (recent_in_store st a)) =
           array_slice (array_sort date_cmp (cells st a)) (- 10)"
  using assms
  by (simp_all add: recent_in_store_def spread_copy_def sort_in_place_def slice_alloc_def)

section \<open>Claims\<close>

text \<open>
  C1. Take a dataset whose scores all lie in 1..5 and that holds at least one rating, and
  let the global average be the one \<open>computeGlobalAverage\<close> derives from it. Then for
  every business with at least one rating and scores in 1..5, \<open>calculateTrustScore\<close>
  returns an integer between 0 and 100, and \<open>neuralNetworkPredict\<close> returns a number
  between 0 and 1.
\<close>

theorem trust_and_fraud_in_range:
  assumes "list_all valid_scores ds" and "list_ex (\<lambda>b. ratings b \<noteq> []) ds"
    and "valid_scores b" and "ratings b \<noteq> []"
  shows "(\<exists>n::int. fst (calculateTrustScore (computeGlobalAverage ds) b) = Num (of_int n)
            \<and> 0 \<le> n \<and> n \<le> 100)
       \<and> (\<exists>c. fst (neuralNetworkPredict (computeGlobalAverage ds) b) = Num c
            \<and> 0 \<le> c \<and> c \<le> 1)"
proof -
  obtain g where g: "computeGlobalAverage ds = Num g" "1 \<le> g" "g \<le> 5"
    using computeGlobalAverage_bounds[OF assms(1,2)] by blast
  have rs: "map score (ratings b) \<noteq> []" using assms(4) by simp
  obtain s where s: "trust_score (Num g) (map score (ratings b)) = Num s" "0 \<le> s" "s \<le> 100"
    using trust_score_bounds[OF valid_scores_set[OF assms(3)] rs g(2,3)] by blast
  have "fst (calculateTrustScore (Num g) b) = math_round (Num s)"
    by (simp add: calculateTrustScore_nonempty[OF assms(4)] s(1))
  then have trust: "\<exists>n::int. fst (calculateTrustScore (computeGlobalAverage ds) b) = Num (of_int n)
            \<and> 0 \<le> n \<and> n \<le> 100"
    using math_round_int_bounds[OF s(2,3)] g(1) by simp
  obtain c where "fst (neuralNetworkPredict (computeGlobalAverage ds) b) = Num c" "0 < c" "c < 1"
    using predict_Num[OF assms(4)] by blast
  then have "\<exists>c. fst (neuralNetworkPredict (computeGlobalAverage ds) b) = Num c
            \<and> 0 \<le> c \<and> c \<le> 1"
    by (intro exI[of _ c]) simp
  with trust show ?thesis by blast
qed

text \<open>The theorem at the sample dataset.\<close>

theorem trust_and_fraud_in_range_witness:
  "list_all valid_scores sample_dataset \<and> list_ex (\<lambda>b. ratings b \<noteq> []) sample_dataset
   \<and> valid_scores (sample_business [5, 3]) \<and> ratings (sample_business [5, 3]) \<noteq> []
   \<and> (\<exists>n::int. fst (calculateTrustScore (computeGlobalAverage sample_dataset)
                      (sample_business [5, 3])) = Num (of_int n) \<and> 0 \<le> n \<and> n \<le> 100)
   \<and> (\<exists>c. fst (neuralNetworkPredict (computeGlobalAverage sample_dataset)
                      (sample_business [5, 3])) = Num c \<and> 0 \<le> c \<and> c \<le> 1)"
proof -
  have h1: "list_all valid_scores sample_dataset"
    by (simp add: sample_dataset_def sample_business_def valid_scores_def)
  have h2: "list_ex (\<lambda>b. ratings b \<noteq> []) sample_dataset"
    by (simp add: sample_dataset_def sample_business_def)
  have h3: "valid_scores (sample_business [5, 3])"
    by (simp add: sample_business_def valid_scores_def)
  have h4: "ratings (sample_business [5, 3]) \<noteq> []"
    by (simp add: sample_business_def)
  show ?thesis
    using h1 h2 h3 h4 trust_and_fraud_in_range[OF h1 h2 h3 h4] by blast
qed

text \<open>
  C2. For a business whose scores are 5, 5, 5, 5, 5 and a global average of 3,
  \<open>calculateTrustScore\<close> computes the raw average \<open>R = 5\<close>, the smoothed value
  \<open>bayes = 3.5\<close> and the normalised entropy 0, caches the raw average and the entropy,
  and returns 56.
\<close>

theorem worked_example:
  assumes "map score (ratings b) = [5, 5, 5, 5, 5]"
  shows "trust_R (map score (ratings b)) = Num 5
       \<and> trust_bayes (Num 3) (map score (ratings b)) = Num 3.5
       \<and> trust_normalized (map score (ratings b)) = Num 0
       \<and> fst (calculateTrustScore (Num 3) b) = Num 56
       \<and> rawAverage (snd (calculateTrustScore (Num 3) b)) = Some (Num 5)
       \<and> entropy (snd (calculateTrustScore (Num 3) b)) = Some (Num 0)"
proof -
  have ne: "ratings b \<noteq> []" using assms by auto
  have R: "trust_R (map score (ratings b)) = Num 5"
    unfolding assms by (simp add: trust_R_Num)
  have bayes: "trust_bayes (Num 3) (map score (ratings b)) = Num 3.5"
    unfolding assms by (simp add: trust_bayes_Num)
  have "entropy_real [5, 5, 5, 5, 5] = 0"
    by (rule entropy_real_same[where s = 5]) simp
  then have norm: "trust_normalized (map score (ratings b)) = Num 0"
    unfolding assms by (simp add: trust_normalized_Num)
  have "trust_score (Num 3) (map score (ratings b)) = Num 56"
    by (simp add: trust_score_def bayes norm)
  then have "fst (calculateTrustScore (Num 3) b) = Num 56"
    by (simp add: calculateTrustScore_nonempty[OF ne] round_56 del: math_round.simps)
  then show ?thesis
    using R bayes norm by (simp add: calculateTrustScore_nonempty[OF ne])
qed

text \<open>The theorem at the sample business with these five ratings.\<close>

theorem worked_example_witness:
  "map score (ratings (sample_business [5, 5, 5, 5, 5])) = [5, 5, 5, 5, 5]
   \<and> trust_bayes (Num 3) (map score (ratings (sample_business [5, 5, 5, 5, 5]))) = Num 3.5
   \<and> fst (calculateTrustScore (Num 3) (sample_business [5, 5, 5, 5, 5])) = Num 56"
proof -
  have h: "map score (ratings (sample_business [5, 5, 5, 5, 5])) = [5, 5, 5, 5, 5]"
    by (simp add: sample_business_def upt_rec)
  show ?thesis
    using h worked_example[OF h] by blast
qed

text \<open>
  C3, as the code has it. Nothing in the engine raises an error. For a business without
  ratings \<open>calculateVolatility\<close> divides zero by zero and returns NaN, and for a dataset
  without any rating \<open>computeGlobalAverage\<close> sets the global average to NaN.
\<close>

theorem empty_input_gives_NaN:
  "(ratings b = [] \<longrightarrow> calculateVolatility b = NaN)
   \<and> ((\<forall>b'\<in>set ds. ratings b' = []) \<longrightarrow> computeGlobalAverage ds = NaN)"
  using calculateVolatility_empty computeGlobalAverage_empty by blast

text \<open>The theorem at a business without ratings and at the dataset that holds only it.\<close>

theorem empty_input_gives_NaN_witness:
  "ratings (sample_business []) = [] \<and> calculateVolatility (sample_business []) = NaN
   \<and> computeGlobalAverage [sample_business []] = NaN"
proof -
  have h1: "ratings (sample_business []) = []"
    by (simp add: sample_business_def)
  have h2: "\<forall>b'\<in>set [sample_business []]. ratings b' = []"
    by (simp add: sample_business_def)
  show ?thesis
    using h1 h2 empty_input_gives_NaN[of "sample_business []" "[sample_business []]"] by blast
qed

text \<open>
  C3 as stated fails: on a business without ratings, and on a dataset without ratings,
  the two operations produce the not-a-number value instead of an error.
\<close>

theorem insufficient_data_counterexample:
  "calculateVolatility (sample_business []) = NaN
   \<and> computeGlobalAverage [sample_business []] = NaN
   \<and> computeGlobalAverage [] = NaN"
  by (simp add: calculateVolatility_def computeGlobalAverage_def reduce_sum_def num_length_def
                sample_business_def)

text \<open>
  C4, the code at a business without ratings: \<open>calculateTrustScore\<close> returns 0 before it
  reaches the assignments to the cache, so \<open>rawAverage\<close> and \<open>entropy\<close> stay absent
  instead of becoming 0.
\<close>

theorem empty_ratings_leave_cache_unset:
  "fst (calculateTrustScore (Num 3) (sample_business [])) = Num 0
   \<and> rawAverage (snd (calculateTrustScore (Num 3) (sample_business []))) = None
   \<and> entropy (snd (calculateTrustScore (Num 3) (sample_business []))) = None"
  by (simp add: calculateTrustScore_def sample_business_def)

text \<open>
  C5. For every business and every global average, the value \<open>neuralNetworkPredict\<close>
  returns is the specification's formula, with its weights and its order of operations,
  applied to the features extracted after \<open>calculateTrustScore\<close> has run. For a
  business with at least one rating the four features are ordinary numbers
  \<open>q\<close>, \<open>w\<close>, \<open>e\<close>, \<open>s\<close>, the clamp changes nothing, and the result is
  \<open>1 / (1 + exp (- ((q*0.8 + w*1.2 + (1-e)*0.6)*0.7 + (0.5-s)*0.9)))\<close>.
\<close>

theorem fraud_confidence_formula:
  "fst (neuralNetworkPredict ga b) =
     spec_fraud_confidence (extractFeatures (snd (calculateTrustScore ga b)))
   \<and> (ratings b \<noteq> [] \<longrightarrow>
       (\<exists>q w e s.
           fiveStarRatio (extractFeatures (snd (calculateTrustScore ga b))) = Num q
         \<and> recentFiveRatio (extractFeatures (snd (calculateTrustScore ga b))) = Num w
         \<and> f_entropy (extractFeatures (snd (calculateTrustScore ga b))) = Some (Num e)
         \<and> volatility (extractFeatures (snd (calculateTrustScore ga b))) = Num s
         \<and> fst (neuralNetworkPredict ga b) =
             Num (1 / (1 + exp (- ((q * 0.8 + w * 1.2 + (1 - e) * 0.6) * 0.7 + (0.5 - s) * 0.9))))))"
proof
  show "fst (neuralNetworkPredict ga b) =
     spec_fraud_confidence (extractFeatures (snd (calculateTrustScore ga b)))"
    by (simp add: neuralNetworkPredict_def spec_fraud_confidence_def spec_sigmoid_def Let_def
                  min_max_is_clamp)
next
  show "ratings b \<noteq> [] \<longrightarrow>
       (\<exists>q w e s.
           fiveStarRatio (extractFeatures (snd (calculateTrustScore ga b))) = Num q
         \<and> recentFiveRatio (extractFeatures (snd (calculateTrustScore ga b))) = Num w
         \<and> f_entropy (extractFeatures (snd (calculateTrustScore ga b))) = Some (Num e)
         \<and> volatility (extractFeatures (snd (calculateTrustScore ga b))) = Num s
         \<and> fst (neuralNetworkPredict ga b) =
             Num (1 / (1 + exp (- ((q * 0.8 + w * 1.2 + (1 - e) * 0.6) * 0.7 + (0.5 - s) * 0.9)))))"
    using predict_closed_form[of b ga] by blast
qed

text \<open>The theorem at the sample business with the ratings 5 and 3.\<close>

theorem fraud_confidence_formula_witness:
  "ratings (sample_business [5, 3]) \<noteq> []
   \<and> fst (neuralNetworkPredict (Num 3) (sample_business [5, 3])) =
       spec_fraud_confidence
         (extractFeatures (snd (calculateTrustScore (Num 3) (sample_business [5, 3]))))
   \<and> (\<exists>q w e s.
         fst (neuralNetworkPredict (Num 3) (sample_business [5, 3])) =
           Num (1 / (1 + exp (- ((q * 0.8 + w * 1.2 + (1 - e) * 0.6) * 0.7 + (0.5 - s) * 0.9)))))"
proof -
  have h: "ratings (sample_business [5, 3]) \<noteq> []"
    by (simp add: sample_business_def)
  show ?thesis
    using h fraud_confidence_formula[of "Num 3" "sample_business [5, 3]"] by blast
qed

text \<open>
  C6. After \<open>calculateTrustScore\<close>, the normalised entropy (the local \<open>normalized\<close>,
  cached as \<open>b.entropy\<close>) is 1 for every business with scores in 1..5 in which each of
  the five scores occurs equally often, and 0 for every business with at least one
  rating whose ratings all carry the same score. The values are exact over the reals.
\<close>

theorem entropy_normalization:
  "(valid_scores b \<and> ratings b \<noteq> [] \<and>
      (\<forall>k\<in>{1, 2, 3, 4, 5}. count_list (map score (ratings b)) k
                              = count_list (map score (ratings b)) 1)
     \<longrightarrow> trust_normalized (map score (ratings b)) = Num 1
         \<and> entropy (snd (calculateTrustScore ga b)) = Some (Num 1))
   \<and> (ratings b \<noteq> [] \<and> (\<forall>r\<in>set (ratings b). score r = s)
     \<longrightarrow> trust_normalized (map score (ratings b)) = Num 0
         \<and> entropy (snd (calculateTrustScore ga b)) = Some (Num 0))"
proof (intro conjI impI)
  assume a: "valid_scores b \<and> ratings b \<noteq> [] \<and>
      (\<forall>k\<in>{1, 2, 3, 4, 5}. count_list (map score (ratings b)) k
                              = count_list (map score (ratings b)) 1)"
  then have ne: "map score (ratings b) \<noteq> []" by simp
  have e: "entropy_real (map score (ratings b)) = ln 5"
    using entropy_real_even[OF valid_scores_set ne] a by blast
  show "trust_normalized (map score (ratings b)) = Num 1"
    by (simp add: trust_normalized_Num[OF ne] e)
  show "entropy (snd (calculateTrustScore ga b)) = Some (Num 1)"
    using a by (simp add: entropy_after_trust e)
next
  assume a: "ratings b \<noteq> [] \<and> (\<forall>r\<in>set (ratings b). score r = s)"
  then have ne: "map score (ratings b) \<noteq> []" by simp
  have "\<forall>r\<in>set (map score (ratings b)). r = s" using a by simp
  then have e: "entropy_real (map score (ratings b)) = 0" by (rule entropy_real_same)
  show "trust_normalized (map score (ratings b)) = Num 0"
    by (simp add: trust_normalized_Num[OF ne] e)
  show "entropy (snd (calculateTrustScore ga b)) = Some (Num 0)"
    using a by (simp add: entropy_after_trust e)
qed

text \<open>The theorem at the ratings 1, 2, 3, 4, 5 and at the ratings 4, 4, 4.\<close>

theorem entropy_normalization_witness:
  "valid_scores (sample_business [1, 2, 3, 4, 5])
   \<and> map score (ratings (sample_business [1, 2, 3, 4, 5])) = [1, 2, 3, 4, 5]
   \<and> entropy (snd (calculateTrustScore (Num 3) (sample_business [1, 2, 3, 4, 5]))) = Some (Num 1)
   \<and> map score (ratings (sample_business [4, 4, 4])) = [4, 4, 4]
   \<and> entropy (snd (calculateTrustScore (Num 3) (sample_business [4, 4, 4]))) = Some (Num 0)"
proof -
  have h1: "valid_scores (sample_business [1, 2, 3, 4, 5]) \<and> ratings (sample_business [1, 2, 3, 4, 5]) \<noteq> [] \<and>
      (\<forall>k\<in>{1, 2, 3, 4, 5}. count_list (map score (ratings (sample_business [1, 2, 3, 4, 5]))) k
                              = count_list (map score (ratings (sample_business [1, 2, 3, 4, 5]))) 1)"
    by (simp add: sample_business_def valid_scores_def upt_rec)
  have h2: "ratings (sample_business [4, 4, 4]) \<noteq> [] \<and> (\<forall>r\<in>set (ratings (sample_business [4, 4, 4])). score r = 4)"
    by (simp add: sample_business_def upt_rec)
  have e1: "entropy (snd (calculateTrustScore (Num 3) (sample_business [1, 2, 3, 4, 5]))) = Some (Num 1)"
    using h1 entropy_normalization[where b = "sample_business [1, 2, 3, 4, 5]" and ga = "Num 3" and s = 4]
    by blast
  have e2: "entropy (snd (calculateTrustScore (Num 3) (sample_business [4, 4, 4]))) = Some (Num 0)"
    using h2 entropy_normalization[where b = "sample_business [4, 4, 4]" and ga = "Num 3" and s = 4]
    by blast
  have "map score (ratings (sample_business [1, 2, 3, 4, 5])) = [1, 2, 3, 4, 5]"
    and "map score (ratings (sample_business [4, 4, 4])) = [4, 4, 4]"
    by (simp_all add: sample_business_def upt_rec)
  then show ?thesis
    using h1 e1 e2 by blast
qed

text \<open>
  C7. For every business, the window \<open>recent\<close> of \<open>extractFeatures\<close> is the last 10
  elements (all of them when there are fewer) of the ratings sorted by date: a
  rearrangement of the ratings, ascending in date, in which ratings of equal date keep
  their original order. \<open>recentFiveRatio\<close> is the share of five-star ratings in that
  window, as the specification defines it, and it is 0 for a business without ratings.
  For 12 ratings already in date order, the window is the ratings without the first two.
\<close>

theorem recent_five_ratio:
  "recentFiveRatio (extractFeatures b) = spec_recentFiveRatio (ratings b)
   \<and> array_slice (array_sort date_cmp (ratings b)) (- 10) =
       drop (length (ratings b) - 10) (array_sort date_cmp (ratings b))
   \<and> mset (array_sort date_cmp (ratings b)) = mset (ratings b)
   \<and> sorted (map date (array_sort date_cmp (ratings b)))
   \<and> filter (\<lambda>r. date r = d) (array_sort date_cmp (ratings b)) =
       filter (\<lambda>r. date r = d) (ratings b)
   \<and> (ratings b = [] \<longrightarrow> recentFiveRatio (extractFeatures b) = Num 0)
   \<and> (ratings b \<noteq> [] \<longrightarrow>
        recentFiveRatio (extractFeatures b) =
          spec_five_ratio (drop (length (ratings b) - 10) (array_sort date_cmp (ratings b))))
   \<and> (length (ratings b) = 12 \<and> sorted (map date (ratings b)) \<longrightarrow>
        recentFiveRatio (extractFeatures b) = spec_five_ratio (drop 2 (ratings b)))"
proof (intro conjI impI)
  show "recentFiveRatio (extractFeatures b) = spec_recentFiveRatio (ratings b)"
    by (rule extractFeatures_recent)
  show "array_slice (array_sort date_cmp (ratings b)) (- 10) =
       drop (length (ratings b) - 10) (array_sort date_cmp (ratings b))"
    by (simp add: array_slice_last10 array_sort_date)
  show "mset (array_sort date_cmp (ratings b)) = mset (ratings b)"
    by (rule array_sort_props)
  show "sorted (map date (array_sort date_cmp (ratings b)))"
    by (rule array_sort_props)
  show "filter (\<lambda>r. date r = d) (array_sort date_cmp (ratings b)) =
       filter (\<lambda>r. date r = d) (ratings b)"
    by (rule array_sort_props)
next
  assume "ratings b = []"
  then show "recentFiveRatio (extractFeatures b) = Num 0"
    by (simp add: extractFeatures_recent spec_recentFiveRatio_def)
next
  assume ne: "ratings b \<noteq> []"
  have "spec_recent_window (ratings b) =
        drop (length (ratings b) - 10) (array_sort date_cmp (ratings b))"
    by (simp add: spec_recent_window_def Let_def array_sort_date)
  then show "recentFiveRatio (extractFeatures b) =
          spec_five_ratio (drop (length (ratings b) - 10) (array_sort date_cmp (ratings b)))"
    using ne by (simp add: extractFeatures_recent spec_recentFiveRatio_def)
next
  assume a: "length (ratings b) = 12 \<and> sorted (map date (ratings b))"
  then have ne: "ratings b \<noteq> []" by auto
  have "spec_recent_window (ratings b) = drop 2 (ratings b)"
    using a recent_window_sorted_input[of "ratings b"] by simp
  then show "recentFiveRatio (extractFeatures b) = spec_five_ratio (drop 2 (ratings b))"
    using ne by (simp add: extractFeatures_recent spec_recentFiveRatio_def)
qed

text \<open>
  The theorem at a business with 12 ratings in date order, the first two with five
  stars and the last ten with four: only the last ten count, so the ratio is 0. And at
  a business without ratings.
\<close>

theorem recent_five_ratio_witness:
  "length (ratings (sample_business [5, 5, 4, 4, 4, 4, 4, 4, 4, 4, 4, 4])) = 12
   \<and> sorted (map date (ratings (sample_business [5, 5, 4, 4, 4, 4, 4, 4, 4, 4, 4, 4])))
   \<and> recentFiveRatio (extractFeatures (sample_business [5, 5, 4, 4, 4, 4, 4, 4, 4, 4, 4, 4])) = Num 0
   \<and> ratings (sample_business []) = []
   \<and> recentFiveRatio (extractFeatures (sample_business [])) = Num 0"
proof -
  let ?b = "sample_business [5, 5, 4, 4, 4, 4, 4, 4, 4, 4, 4, 4]"
  have h: "length (ratings ?b) = 12 \<and> sorted (map date (ratings ?b))"
    by (simp add: sample_business_def upt_rec)
  have "recentFiveRatio (extractFeatures ?b) = spec_five_ratio (drop 2 (ratings ?b))"
    using h recent_five_ratio[of ?b 0] by blast
  moreover have "spec_five_ratio (drop 2 (ratings ?b)) = Num 0"
    by (simp add: spec_five_ratio_def sample_business_def upt_rec)
  moreover have e: "ratings (sample_business []) = []"
    by (simp add: sample_business_def)
  moreover have "recentFiveRatio (extractFeatures (sample_business [])) = Num 0"
    using e recent_five_ratio[of "sample_business []" 0] by blast
  ultimately show ?thesis
    using h by simp
qed

text \<open>
  C8. Evaluating the full score of a business (the trust score, then the fraud
  confidence) and evaluating it again on the business as the first evaluation left it,
  with the same global average, gives the same two results, and the second evaluation
  leaves the business as the first one did.
\<close>

theorem score_card_idempotent:
  "fst (score_card ga (snd (score_card ga b))) = fst (score_card ga b)
   \<and> snd (score_card ga (snd (score_card ga b))) = snd (score_card ga b)"
proof (cases "ratings b = []")
  case True
  have "snd (score_card ga b) = b"
    by (simp add: score_card_def neuralNetworkPredict_def calculateTrustScore_empty[OF True] Let_def)
  then show ?thesis by simp
next
  case False
  define b1 where "b1 = snd (calculateTrustScore ga b)"
  have r: "ratings b1 = ratings b"
    by (simp add: b1_def calculateTrustScore_nonempty[OF False])
  then have ne: "ratings b1 \<noteq> []" using False by simp
  have again: "calculateTrustScore ga b1 = (fst (calculateTrustScore ga b), b1)"
    unfolding calculateTrustScore_nonempty[OF ne] r
    by (simp add: b1_def calculateTrustScore_nonempty[OF False])
  have first: "calculateTrustScore ga b = (fst (calculateTrustScore ga b), b1)"
    by (simp add: b1_def)
  have card1: "score_card ga b = ((fst (calculateTrustScore ga b), fst (neuralNetworkPredict ga b1)), b1)"
    unfolding score_card_def
    by (subst first) (simp add: neuralNetworkPredict_def Let_def again)
  have card2: "score_card ga b1 = ((fst (calculateTrustScore ga b), fst (neuralNetworkPredict ga b1)), b1)"
    unfolding score_card_def
    by (subst again) (simp add: neuralNetworkPredict_def Let_def again)
  show ?thesis
    by (simp add: card1 card2)
qed

text \<open>
  C9. For every business without ratings \<open>calculateTrustScore\<close> returns without touching
  the business, so the entropy cache is what it was before the call (absent on a
  business that was never scored); \<open>extractFeatures\<close> then computes \<open>fiveStarRatio\<close> as
  \<open>0/0\<close>, which is NaN, and passes the cache on as it is; and \<open>neuralNetworkPredict\<close>
  returns NaN, which is not a number between 0 and 1.
\<close>

theorem empty_ratings_predict_NaN:
  assumes "ratings b = []"
  shows "snd (calculateTrustScore ga b) = b
       \<and> fiveStarRatio (extractFeatures (snd (calculateTrustScore ga b))) = NaN
       \<and> f_entropy (extractFeatures (snd (calculateTrustScore ga b))) = entropy b
       \<and> fst (neuralNetworkPredict ga b) = NaN
       \<and> \<not> (\<exists>c. fst (neuralNetworkPredict ga b) = Num c \<and> 0 \<le> c \<and> c \<le> 1)"
  using assms
  by (simp add: calculateTrustScore_empty extractFeatures_five_empty extractFeatures_entropy
                predict_empty)

text \<open>The theorem at a business without ratings that was never scored: the entropy that
  \<open>extractFeatures\<close> reads is absent.\<close>

theorem empty_ratings_predict_NaN_witness:
  "ratings (sample_business []) = []
   \<and> f_entropy (extractFeatures (snd (calculateTrustScore (Num 3) (sample_business [])))) = None
   \<and> fst (neuralNetworkPredict (Num 3) (sample_business [])) = NaN"
proof -
  have h: "ratings (sample_business []) = []"
    by (simp add: sample_business_def)
  have e: "entropy (sample_business []) = None"
    by (simp add: sample_business_def)
  have "f_entropy (extractFeatures (snd (calculateTrustScore (Num 3) (sample_business []))))
          = entropy (sample_business [])"
    and "fst (neuralNetworkPredict (Num 3) (sample_business [])) = NaN"
    using empty_ratings_predict_NaN[OF h, of "Num 3"] by blast+
  then show ?thesis
    using h e by (simp del: fst_conv)
qed

text \<open>
  C10. \<open>calculateTrustScore\<close> changes a business at most in the three cache fields
  \<open>rawAverage\<close>, \<open>entropy\<close> and \<open>finalTrust\<close>, and \<open>neuralNetworkPredict\<close> leaves the
  business as \<open>calculateTrustScore\<close> does: \<open>name\<close>, \<open>category\<close> and \<open>ratings\<close> are the
  same after either call. \<open>calculateVolatility\<close> and \<open>extractFeatures\<close> contain no
  assignment to the business; the one operation in them that works in place is the sort
  of \<open>extractFeatures\<close>, and it runs on a fresh copy: with \<open>b.ratings\<close> at an address
  \<open>a\<close> of the store, \<open>[...b.ratings].sort(...).slice(-10)\<close> leaves the array at \<open>a\<close>
  and every other array that existed before as it was, and yields at a new address the
  window that \<open>extractFeatures\<close> uses.
\<close>

theorem scoring_preserves_raw_data:
  "(\<exists>ra en ft. snd (calculateTrustScore ga b) =
        b\<lparr>rawAverage := ra, entropy := en, finalTrust := ft\<rparr>)
   \<and> name (snd (calculateTrustScore ga b)) = name b
   \<and> category (snd (calculateTrustScore ga b)) = category b
   \<and> ratings (snd (calculateTrustScore ga b)) = ratings b
   \<and> name (snd (neuralNetworkPredict ga b)) = name b
   \<and> category (snd (neuralNetworkPredict ga b)) = category b
   \<and> ratings (snd (neuralNetworkPredict ga b)) = ratings b
   \<and> (a < fresh st \<longrightarrow>
        cells (snd (recent_in_store st a)) a = cells st a
      \<and> (\<forall>a'<fresh st. cells (snd (recent_in_store st a)) a' = cells st a')
      \<and> fresh st < fst (recent_in_store st a)
      \<and> cells (snd (recent_in_store st a)) (fst (recent_in_store st a)) =
           array_slice (array_sort date_cmp (cells st a)) (- 10))"
proof -
  obtain ra en ft where w: "snd (calculateTrustScore ga b) =
        b\<lparr>rawAverage := ra, entropy := en, finalTrust := ft\<rparr>"
    using trust_writes_cache_only by blast
  have fields: "name (snd (calculateTrustScore ga b)) = name b"
    "category (snd (calculateTrustScore ga b)) = category b"
    "ratings (snd (calculateTrustScore ga b)) = ratings b"
    unfolding w by simp_all
  have cache: "\<exists>ra en ft. snd (calculateTrustScore ga b) =
        b\<lparr>rawAverage := ra, entropy := en, finalTrust := ft\<rparr>"
    by (rule trust_writes_cache_only)
  have store: "a < fresh st \<longrightarrow>
        cells (snd (recent_in_store st a)) a = cells st a
      \<and> (\<forall>a'<fresh st. cells (snd (recent_in_store st a)) a' = cells st a')
      \<and> fresh st < fst (recent_in_store st a)
      \<and> cells (snd (recent_in_store st a)) (fst (recent_in_store st a)) =
           array_slice (array_sort date_cmp (cells st a)) (- 10)"
    using recent_in_store_frame[of a st] by blast
  show ?thesis
    unfolding predict_state using cache fields store by blast
qed

text \<open>
  The theorem at a store whose only array, at address 0, holds two ratings out of date
  order: the array is still out of order afterwards, and the new array holds them sorted.
\<close>

theorem scoring_preserves_raw_data_witness:
  "0 < fresh sample_store
   \<and> cells (snd (recent_in_store sample_store 0)) 0 =
       [\<lparr>score = 5, date = 3\<rparr>, \<lparr>score = 4, date = 1\<rparr>]
   \<and> cells (snd (recent_in_store sample_store 0)) (fst (recent_in_store sample_store 0)) =
       [\<lparr>score = 4, date = 1\<rparr>, \<lparr>score = 5, date = 3\<rparr>]"
proof -
  have h: "0 < fresh sample_store"
    by (simp add: sample_store_def)
  have c: "cells sample_store 0 = [\<lparr>score = 5, date = 3\<rparr>, \<lparr>score = 4, date = 1\<rparr>]"
    by (simp add: sample_store_def)
  have s: "array_slice (array_sort date_cmp [\<lparr>score = 5, date = 3\<rparr>, \<lparr>score = 4, date = 1\<rparr>]) (- 10) =
       [\<lparr>score = 4, date = 1\<rparr>, \<lparr>score = 5, date = 3\<rparr>]"
    by (simp add: array_slice_def array_sort_def date_cmp_def num_gt_def num_sub_def)
  show ?thesis
    using h scoring_preserves_raw_data[of "Num 3" "sample_business []" 0 sample_store]
    by (simp add: c s)
qed

end
